theory Spec2Isabelle
  imports Main
begin

section \<open>Python values as the script sees them\<close>

text \<open>
  The script \<^verbatim>\<open>count_labels.py\<close> reads two tables with \<^verbatim>\<open>pandas.read_csv\<close>,
  sums the counts of the region rows whose hierarchy columns name a structure, and
  writes the summary table with a new \<^verbatim>\<open>count\<close> column.

  Text is a \<open>string\<close>; each \<open>char\<close> stands for the Unicode code point of the same
  number, so the texts of the model are the Python strings over U+0000 .. U+00FF.
\<close>

subsection \<open>\<^verbatim>\<open>str.lower\<close> and \<^verbatim>\<open>str.upper\<close>\<close>

text \<open>
  Below U+0100 the lowercase mapping of Python adds 32 to \<^verbatim>\<open>A\<close> .. \<^verbatim>\<open>Z\<close> (65 .. 90)
  and to the capital letters U+00C0 .. U+00DE (192 .. 222) except the multiplication
  sign U+00D7 (215), and leaves every other code point alone.
\<close>

definition lower_char :: "char \<Rightarrow> char" where
  "lower_char c =
     (let n = (of_char c :: nat)
      in if (65 \<le> n \<and> n \<le> 90) \<or> (192 \<le> n \<and> n \<le> 222 \<and> n \<noteq> 215)
         then char_of (n + 32) else c)"

definition lower :: "string \<Rightarrow> string" where
  "lower s = map lower_char s"

text \<open>
  The uppercase mapping subtracts 32 from \<^verbatim>\<open>a\<close> .. \<^verbatim>\<open>z\<close> (97 .. 122) and from
  U+00E0 .. U+00FE (224 .. 254) except the division sign U+00F7 (247); it turns the
  sharp s U+00DF (223) into the two letters \<^verbatim>\<open>SS\<close>. The micro sign U+00B5 (181) and
  the y with diaeresis U+00FF (255) have their capitals above U+00FF: there the result
  is \<open>None\<close>, a text that the model cannot hold.
\<close>

definition upper_char :: "char \<Rightarrow> string option" where
  "upper_char c =
     (let n = (of_char c :: nat)
      in if (97 \<le> n \<and> n \<le> 122) \<or> (224 \<le> n \<and> n \<le> 254 \<and> n \<noteq> 247)
         then Some [char_of (n - 32)]
         else if n = 223 then Some ''SS''
         else if n = 181 \<or> n = 255 then None
         else Some [c])"

fun upper :: "string \<Rightarrow> string option" where
  "upper [] = Some []"
| "upper (c # cs) =
     (case upper_char c of
        None \<Rightarrow> None
      | Some u \<Rightarrow> (case upper cs of None \<Rightarrow> None | Some us \<Rightarrow> Some (u @ us)))"

subsection \<open>Cells\<close>

text \<open>
  A cell of a table that \<^verbatim>\<open>read_csv\<close> returned is a text, an integer, a truth value,
  a float or the missing value NaN. The script looks at a float in two ways only, with
  \<^verbatim>\<open>int(x)\<close> and with \<^verbatim>\<open>str(x)\<close>, so a float other than NaN is given by these two
  readings: its truncation (\<open>None\<close> for an infinity, where \<^verbatim>\<open>int\<close> raises
  OverflowError) and its text.
\<close>

datatype cell =
    StrV string
  | IntV int
  | BoolV bool
  | FloatV "int option" string
  | NaN

datatype error =
    KeyError
  | AttributeError
  | ValueError
  | OverflowError
  | NameError
  | OSError

text \<open>\<^verbatim>\<open>str(n)\<close> of an integer: the decimal digits, after a minus sign when negative.\<close>

definition digit_char :: "int \<Rightarrow> char" where
  "digit_char d = char_of (48 + d)"

function digits :: "int \<Rightarrow> string" where
  "digits n = (if n < 10 then [digit_char n] else digits (n div 10) @ [digit_char (n mod 10)])"
  by pat_completeness auto
termination
  by (relation "measure nat") auto

declare digits.simps [simp del]

definition str_of_int :: "int \<Rightarrow> string" where
  "str_of_int i = (if i < 0 then CHR ''-'' # digits (- i) else digits i)"

fun py_str :: "cell \<Rightarrow> string" where
  "py_str (StrV s) = s"
| "py_str (IntV i) = str_of_int i"
| "py_str (BoolV b) = (if b then ''True'' else ''False'')"
| "py_str (FloatV t s) = s"
| "py_str NaN = ''nan''"

text \<open>
  Two things Python computes are taken as they are, as parameters of the model:
  \<^verbatim>\<open>int(s)\<close> of a text (\<open>None\<close> where it raises ValueError), and the text of a
  float whose value is an integer of sixteen digits or more (its exponent form).
\<close>

record pylib =
  int_of_str :: "string \<Rightarrow> int option"
  float_repr :: "int \<Rightarrow> string"

fun py_int :: "pylib \<Rightarrow> cell \<Rightarrow> error + int" where
  "py_int py (StrV s) = (case int_of_str py s of None \<Rightarrow> Inl ValueError | Some i \<Rightarrow> Inr i)"
| "py_int py (IntV i) = Inr i"
| "py_int py (BoolV b) = Inr (if b then 1 else 0)"
| "py_int py (FloatV t s) = (case t of None \<Rightarrow> Inl OverflowError | Some i \<Rightarrow> Inr i)"
| "py_int py NaN = Inl ValueError"

text \<open>\<^verbatim>\<open>x.lower()\<close> of a cell: only a text has the method.\<close>

fun cell_lower :: "cell \<Rightarrow> error + string" where
  "cell_lower (StrV s) = Inr (lower s)"
| "cell_lower _ = Inl AttributeError"

subsection \<open>Rows and tables\<close>

text \<open>
  A row handed out by \<^verbatim>\<open>iterrows\<close> is a Series: a cell for each column label.
  \<^verbatim>\<open>row[k]\<close> raises KeyError for a label the row does not have.
\<close>

type_synonym series = "string \<rightharpoonup> cell"

definition getitem :: "series \<Rightarrow> string \<Rightarrow> error + cell" where
  "getitem row k = (case row k of None \<Rightarrow> Inl KeyError | Some v \<Rightarrow> Inr v)"

fun mapM :: "('a \<Rightarrow> error + 'b) \<Rightarrow> 'a list \<Rightarrow> error + 'b list" where
  "mapM f [] = Inr []"
| "mapM f (x # xs) =
     (case f x of
        Inl e \<Rightarrow> Inl e
      | Inr y \<Rightarrow> (case mapM f xs of Inl e \<Rightarrow> Inl e | Inr ys \<Rightarrow> Inr (y # ys)))"

section \<open>The matcher\<close>

definition level_names :: "string list" where
  "level_names =
     [''level_0'', ''level_1'', ''level_2'', ''level_3'', ''level_4'', ''level_5'',
      ''level_6'', ''level_7'', ''level_8'', ''level_9'', ''level_10'']"

text \<open>
  \<^verbatim>\<open>check_columns(keyword, row)\<close>: the eleven cells are read in order (the first
  missing label raises KeyError), each is turned into text and lowercased, and the
  lowercased keyword is looked up in that list with \<^verbatim>\<open>in\<close>.
\<close>

definition check_columns :: "string \<Rightarrow> series \<Rightarrow> error + bool" where
  "check_columns keyword row =
     (let keyword = lower keyword
      in case mapM (getitem row) level_names of
           Inl e \<Rightarrow> Inl e
         | Inr vs \<Rightarrow>
             (let row_labels = map (\<lambda>v. lower (py_str v)) vs
              in if keyword \<in> set row_labels then Inr True else Inr False))"

section \<open>Tables\<close>

text \<open>
  A table (a DataFrame) has its column labels and its rows; a row gives the cell under
  each label, and only the labels of the table are ever read from it.
  \<^verbatim>\<open>table[c]\<close> raises KeyError when the table has no column \<open>c\<close>.
\<close>

record frame =
  columns :: "string list"
  rows :: "(string \<Rightarrow> cell) list"

definition cells :: "frame \<Rightarrow> string \<Rightarrow> cell list" where
  "cells f c = map (\<lambda>r. r c) (rows f)"

definition column :: "frame \<Rightarrow> string \<Rightarrow> error + cell list" where
  "column f c = (if c \<in> set (columns f) then Inr (cells f c) else Inl KeyError)"

text \<open>
  \<^verbatim>\<open>read_csv\<close> gives a column one type: a column of integers only is \<^verbatim>\<open>int64\<close>, a
  column of floats and missing values only is \<^verbatim>\<open>float64\<close>, a column that holds a
  text is \<^verbatim>\<open>object\<close>.
\<close>

fun is_int :: "cell \<Rightarrow> bool" where
  "is_int (IntV i) = True"
| "is_int _ = False"

fun is_float :: "cell \<Rightarrow> bool" where
  "is_float (FloatV t s) = True"
| "is_float NaN = True"
| "is_float _ = False"

definition int_column :: "frame \<Rightarrow> string \<Rightarrow> bool" where
  "int_column f c = list_all is_int (cells f c)"

definition float_column :: "frame \<Rightarrow> string \<Rightarrow> bool" where
  "float_column f c = list_all is_float (cells f c)"

text \<open>
  \<^verbatim>\<open>table.fillna(0)\<close> replaces every missing value by zero: by the float \<^verbatim>\<open>0.0\<close> in
  a \<^verbatim>\<open>float64\<close> column, by the integer \<^verbatim>\<open>0\<close> in any other column.
\<close>

definition zero_float :: cell where
  "zero_float = FloatV (Some 0) ''0.0''"

definition fill_cell :: "frame \<Rightarrow> string \<Rightarrow> cell \<Rightarrow> cell" where
  "fill_cell f c v =
     (if v = NaN then (if float_column f c then zero_float else IntV 0) else v)"

definition fillna0 :: "frame \<Rightarrow> frame" where
  "fillna0 f = f\<lparr>rows := map (\<lambda>r c. fill_cell f c (r c)) (rows f)\<rparr>"

text \<open>
  \<^verbatim>\<open>table.iterrows()\<close> hands out each row as a Series over the table's columns.
  When every column is \<^verbatim>\<open>int64\<close> or \<^verbatim>\<open>float64\<close> and one of them is \<^verbatim>\<open>float64\<close>, the
  rows are \<^verbatim>\<open>float64\<close> too and the integers arrive as floats; in every other table the
  cells arrive as they are.
\<close>

definition upcasts :: "frame \<Rightarrow> bool" where
  "upcasts f =
     (list_all (\<lambda>c. int_column f c \<or> float_column f c) (columns f) \<and>
      list_ex (\<lambda>c. \<not> int_column f c) (columns f))"

text \<open>
  The float of an integer is the nearest double: an integer of at most 53 bits is
  kept, a longer one is rounded to 53 significant bits, a tie going to the even
  mantissa. \<^verbatim>\<open>int\<close> of that float is the rounded integer; its text is the digits
  followed by \<^verbatim>\<open>.0\<close> below ten to the sixteen.
\<close>

function bit_length :: "int \<Rightarrow> nat" where
  "bit_length n = (if n \<le> 0 then 0 else Suc (bit_length (n div 2)))"
  by pat_completeness auto
termination
  by (relation "measure nat") auto

declare bit_length.simps [simp del]

definition round_double :: "int \<Rightarrow> int" where
  "round_double i =
     (let n = \<bar>i\<bar>; b = bit_length n
      in if b \<le> 53 then i
         else
           (let e = b - 53;
                q = n div 2 ^ e;
                r = n mod 2 ^ e;
                half = 2 ^ (e - 1);
                q' = (if r > half \<or> (r = half \<and> odd q) then q + 1 else q)
            in sgn i * (q' * 2 ^ e)))"

definition float_text :: "pylib \<Rightarrow> int \<Rightarrow> string" where
  "float_text py x = (if \<bar>x\<bar> < 10 ^ 16 then str_of_int x @ ''.0'' else float_repr py x)"

definition float_of_int :: "pylib \<Rightarrow> int \<Rightarrow> cell" where
  "float_of_int py i = (let x = round_double i in FloatV (Some x) (float_text py x))"

fun to_float :: "pylib \<Rightarrow> cell \<Rightarrow> cell" where
  "to_float py (IntV i) = float_of_int py i"
| "to_float py v = v"

definition row_series :: "pylib \<Rightarrow> frame \<Rightarrow> (string \<Rightarrow> cell) \<Rightarrow> series" where
  "row_series py f r =
     (\<lambda>k. if k \<in> set (columns f)
          then Some (if upcasts f then to_float py (r k) else r k)
          else None)"

definition iterrows :: "pylib \<Rightarrow> frame \<Rightarrow> series list" where
  "iterrows py f = map (row_series py f) (rows f)"

text \<open>
  \<^verbatim>\<open>table[c] = values\<close> with as many values as rows: an existing column is
  overwritten in place, a new one is added after the others.
\<close>

fun set_cells :: "string \<Rightarrow> (string \<Rightarrow> cell) list \<Rightarrow> cell list \<Rightarrow> (string \<Rightarrow> cell) list" where
  "set_cells c (r # rs) (v # vs) = (r(c := v)) # set_cells c rs vs"
| "set_cells c _ _ = []"

definition setitem :: "frame \<Rightarrow> string \<Rightarrow> cell list \<Rightarrow> frame" where
  "setitem f c vs =
     \<lparr>columns = (if c \<in> set (columns f) then columns f else columns f @ [c]),
      rows = set_cells c (rows f) vs\<rparr>"

section \<open>The loaders\<close>

text \<open>
  The world outside the script: \<^verbatim>\<open>pd.read_csv(path)\<close> gives the table parsed from the
  file at \<open>path\<close>, or raises; \<^verbatim>\<open>to_csv\<close> can write to a path or raises OSError.
\<close>

record os =
  read_csv :: "string \<Rightarrow> error + frame"
  can_write :: "string \<Rightarrow> bool"

text \<open>
  A Python set is kept as the list of its distinct members, in some order; the totals
  of a finished run do not depend on that order (\<open>count_labels_order\<close> below).

  \<^verbatim>\<open>load_summary_structures(filepath)\<close> reads the file named by the module-level
  variable \<^verbatim>\<open>summary_structures_filepath\<close> (NameError when it was never assigned), as
  the body is written; its own argument \<open>filepath\<close> is not used.
\<close>

definition load_summary_structures ::
  "os \<Rightarrow> string option \<Rightarrow> string \<Rightarrow> error + (frame \<times> string list)" where
  "load_summary_structures w summary_structures_filepath filepath =
     (case summary_structures_filepath of
        None \<Rightarrow> Inl NameError
      | Some p \<Rightarrow>
          (case read_csv w p of
             Inl e \<Rightarrow> Inl e
           | Inr summary_structures \<Rightarrow>
               (case column summary_structures ''name'' of
                  Inl e \<Rightarrow> Inl e
                | Inr names \<Rightarrow>
                    (case mapM cell_lower names of
                       Inl e \<Rightarrow> Inl e
                     | Inr structures \<Rightarrow> Inr (summary_structures, remdups structures)))))"

definition region_columns :: "string list" where
  "region_columns =
     [''level_1'', ''level_2'', ''level_3'', ''level_4'', ''level_5'', ''level_6'',
      ''level_7'', ''level_8'', ''level_9'', ''level_10'', ''region name'']"

text \<open>
  \<^verbatim>\<open>load_region_counts(filepath)\<close> reads the ten columns \<^verbatim>\<open>level_1\<close> .. \<^verbatim>\<open>level_10\<close>
  and \<^verbatim>\<open>region name\<close>, drops the missing values (\<^verbatim>\<open>x == x\<close> is false for NaN only)
  and lowercases the rest.
\<close>

definition load_region_counts :: "os \<Rightarrow> string \<Rightarrow> error + (frame \<times> string list)" where
  "load_region_counts w filepath =
     (case read_csv w filepath of
        Inl e \<Rightarrow> Inl e
      | Inr region_counts \<Rightarrow>
          (case mapM (column region_counts) region_columns of
             Inl e \<Rightarrow> Inl e
           | Inr cols \<Rightarrow>
               (case mapM cell_lower (filter (\<lambda>x. x \<noteq> NaN) (concat cols)) of
                  Inl e \<Rightarrow> Inl e
                | Inr levels \<Rightarrow> Inr (region_counts, remdups levels))))"

section \<open>The aggregation\<close>

text \<open>
  \<^verbatim>\<open>structure_count\<close> is a \<^verbatim>\<open>defaultdict(int)\<close>: a label gets a key at its first
  match, starting from 0.
\<close>

definition add_count :: "(string \<rightharpoonup> int) \<Rightarrow> string \<Rightarrow> int \<Rightarrow> (string \<rightharpoonup> int)" where
  "add_count structure_count label n =
     structure_count(label \<mapsto> (case structure_count label of None \<Rightarrow> 0 | Some c \<Rightarrow> c) + n)"

text \<open>The inner loop: every row of the region table, for one label.\<close>

fun count_rows ::
  "pylib \<Rightarrow> string \<Rightarrow> series list \<Rightarrow> (string \<rightharpoonup> int) \<Rightarrow> error + (string \<rightharpoonup> int)" where
  "count_rows py label [] structure_count = Inr structure_count"
| "count_rows py label (row # rest) structure_count =
     (case check_columns label row of
        Inl e \<Rightarrow> Inl e
      | Inr is_match \<Rightarrow>
          if is_match
          then (case getitem row ''count'' of
                  Inl e \<Rightarrow> Inl e
                | Inr v \<Rightarrow>
                    (case py_int py v of
                       Inl e \<Rightarrow> Inl e
                     | Inr n \<Rightarrow> count_rows py label rest (add_count structure_count label n)))
          else count_rows py label rest structure_count)"

text \<open>The outer loop: every label of the set \<open>structures\<close>.\<close>

fun count_labels ::
  "pylib \<Rightarrow> string list \<Rightarrow> series list \<Rightarrow> (string \<rightharpoonup> int) \<Rightarrow> error + (string \<rightharpoonup> int)" where
  "count_labels py [] region_rows structure_count = Inr structure_count"
| "count_labels py (label # rest) region_rows structure_count =
     (case count_rows py label region_rows structure_count of
        Inl e \<Rightarrow> Inl e
      | Inr structure_count' \<Rightarrow> count_labels py rest region_rows structure_count')"

section \<open>The writer\<close>

text \<open>
  Lines 92 to 94: the names are lowercased again, each is looked up in
  \<open>structure_count\<close> (0 for a name that is not a key), and the list becomes the column
  \<^verbatim>\<open>count\<close> of the summary table.
\<close>

definition lookup_count :: "(string \<rightharpoonup> int) \<Rightarrow> string \<Rightarrow> int" where
  "lookup_count structure_count name =
     (case structure_count name of Some c \<Rightarrow> c | None \<Rightarrow> 0)"

definition add_counts :: "frame \<Rightarrow> (string \<rightharpoonup> int) \<Rightarrow> error + frame" where
  "add_counts summary_structures structure_count =
     (case column summary_structures ''name'' of
        Inl e \<Rightarrow> Inl e
      | Inr names \<Rightarrow>
          (case mapM cell_lower names of
             Inl e \<Rightarrow> Inl e
           | Inr summary_names \<Rightarrow>
               (let summary_counts = map (lookup_count structure_count) summary_names
                in Inr (setitem summary_structures ''count'' (map IntV summary_counts)))))"

section \<open>The script\<close>

text \<open>
  \<^verbatim>\<open>os.path.dirname\<close> (POSIX): the path up to its last slash, without the trailing
  slashes unless it is made of slashes only.
\<close>

definition is_sep :: "char \<Rightarrow> bool" where
  "is_sep c = (c = CHR ''/'')"

definition dirname :: "string \<Rightarrow> string" where
  "dirname p =
     (let head = rev (dropWhile (\<lambda>c. \<not> is_sep c) (rev p))
      in if head \<noteq> [] \<and> \<not> list_all is_sep head
         then rev (dropWhile is_sep (rev head))
         else head)"

text \<open>
  \<^verbatim>\<open>to_csv(output_path, index=False)\<close> writes the column labels and then, row by row,
  the cells under them.
\<close>

type_synonym csv = "string list \<times> cell list list"

definition to_csv :: "frame \<Rightarrow> csv" where
  "to_csv f = (columns f, map (\<lambda>r. map r (columns f)) (rows f))"

text \<open>
  What a run leaves behind: the lines printed, the file written (if any), the exit
  status of the process, and the exception that ended it (if any).
  \<^verbatim>\<open>sys.exit()\<close> without an argument ends the process with status 0; an exception that
  nothing catches ends it with status 1.
\<close>

record outcome =
  printed :: "string list"
  written :: "(string \<times> csv) option"
  exit_status :: int
  fault :: "error option"

definition sys_exit :: "int option \<Rightarrow> int" where
  "sys_exit arg = (case arg of None \<Rightarrow> 0 | Some n \<Rightarrow> n)"

text \<open>Lines 76 to 95, from the three paths to the file to write.\<close>

definition process ::
  "pylib \<Rightarrow> os \<Rightarrow> string \<Rightarrow> string \<Rightarrow> string \<Rightarrow> error + (string \<times> csv)" where
  "process py w summary_structures_filepath region_counts_filepath output_path =
     (case load_summary_structures w (Some summary_structures_filepath)
             summary_structures_filepath of
        Inl e \<Rightarrow> Inl e
      | Inr (summary_structures, structures) \<Rightarrow>
          (case load_region_counts w region_counts_filepath of
             Inl e \<Rightarrow> Inl e
           | Inr (region_counts, levels) \<Rightarrow>
               (let region_counts = fillna0 region_counts
                in case count_labels py structures (iterrows py region_counts) Map.empty of
                     Inl e \<Rightarrow> Inl e
                   | Inr structure_count \<Rightarrow>
                       (case add_counts summary_structures structure_count of
                          Inl e \<Rightarrow> Inl e
                        | Inr summary_structures' \<Rightarrow>
                            if can_write w output_path
                            then Inr (output_path, to_csv summary_structures')
                            else Inl OSError))))"

definition usage :: "string list" where
  "usage =
     [''Please specify input parameters. Example shown below:'',
      ''python count_labels.py SUMMARY_STRUCTURES_PATH REGION_COUNTS_PATH OUTPUT_PATH'']"

text \<open>\<open>argv\<close> is \<^verbatim>\<open>sys.argv\<close>: the script's name, then the arguments.\<close>

definition main :: "pylib \<Rightarrow> os \<Rightarrow> string list \<Rightarrow> outcome" where
  "main py w argv =
     (if length argv < 3
      then \<lparr>printed = usage, written = None, exit_status = sys_exit None, fault = None\<rparr>
      else
        (let summary_structures_filepath = argv ! 1;
             region_counts_filepath = argv ! 2;
             output_path =
               (if length argv \<ge> 4 then argv ! 3
                else dirname region_counts_filepath @ ''/summary_structures_counts.csv'');
             banner =
               [''Summary structures filepath: '' @ summary_structures_filepath,
                ''Region counts filepath: '' @ region_counts_filepath,
                ''Output csv filepath: '' @ output_path]
         in case process py w summary_structures_filepath region_counts_filepath output_path of
              Inl e \<Rightarrow> \<lparr>printed = banner, written = None, exit_status = 1, fault = Some e\<rparr>
            | Inr file \<Rightarrow>
                \<lparr>printed = banner, written = Some file, exit_status = 0, fault = None\<rparr>))"

section \<open>Readings used in the statements\<close>

text \<open>A cell that makes its column an \<^verbatim>\<open>object\<close> column: a text or a truth value.\<close>

fun is_obj :: "cell \<Rightarrow> bool" where
  "is_obj (StrV s) = True"
| "is_obj (BoolV b) = True"
| "is_obj _ = False"

text \<open>
  A table that holds a text or a truth value in some column; \<^verbatim>\<open>iterrows\<close> hands out
  the cells of such a table as they are.
\<close>

definition holds_text :: "frame \<Rightarrow> bool" where
  "holds_text f = list_ex (\<lambda>c. list_ex is_obj (cells f c)) (columns f)"

fun is_str :: "cell \<Rightarrow> bool" where
  "is_str (StrV s) = True"
| "is_str _ = False"

text \<open>The text under which a cell takes part in the matching.\<close>

definition row_label :: "cell \<Rightarrow> string" where
  "row_label v = lower (py_str v)"

text \<open>The number of hierarchy columns of a row whose text is the lowercased label.\<close>

definition hits :: "string \<Rightarrow> series \<Rightarrow> nat" where
  "hits label row =
     length (filter (\<lambda>k. case row k of None \<Rightarrow> False | Some v \<Rightarrow> row_label v = lower label)
               level_names)"

text \<open>
  \<^verbatim>\<open>int(row['count'])\<close> as a number, for the rows where it does not raise (0 where it
  does: the loops stop there and no total is built).
\<close>

definition count_of :: "pylib \<Rightarrow> series \<Rightarrow> int" where
  "count_of py row =
     (case getitem row ''count'' of
        Inl e \<Rightarrow> 0
      | Inr v \<Rightarrow> (case py_int py v of Inl e \<Rightarrow> 0 | Inr n \<Rightarrow> n))"

text \<open>
  The count of a cell of the table on disk, a missing count taken as 0 (and 0 where
  \<^verbatim>\<open>int\<close> would raise).
\<close>

definition coerced_count :: "pylib \<Rightarrow> cell \<Rightarrow> int" where
  "coerced_count py v =
     (if v = NaN then 0 else (case py_int py v of Inl e \<Rightarrow> 0 | Inr n \<Rightarrow> n))"

text \<open>
  The cell that the loops see for the cell \<open>v\<close> of column \<open>c\<close> of the table \<open>f\<close> on
  disk (after \<^verbatim>\<open>fillna(0)\<close> and \<^verbatim>\<open>iterrows\<close>), and the count they read from a cell of
  the count column (0 where \<^verbatim>\<open>int\<close> would raise).
\<close>

definition seen_cell :: "pylib \<Rightarrow> frame \<Rightarrow> string \<Rightarrow> cell \<Rightarrow> cell" where
  "seen_cell py f c v =
     (if upcasts (fillna0 f) then to_float py (fill_cell f c v) else fill_cell f c v)"

definition seen_count :: "pylib \<Rightarrow> frame \<Rightarrow> cell \<Rightarrow> int" where
  "seen_count py f v =
     (case py_int py (seen_cell py f ''count'' v) of Inl e \<Rightarrow> 0 | Inr n \<Rightarrow> n)"

text \<open>The row of the region table \<open>f\<close> that the loops see for the row \<open>r\<close> read from disk.\<close>

definition seen_row :: "pylib \<Rightarrow> frame \<Rightarrow> (string \<Rightarrow> cell) \<Rightarrow> series" where
  "seen_row py f r = row_series py (fillna0 f) (\<lambda>c. fill_cell f c (r c))"

section \<open>Sample tables\<close>

definition blank :: "string \<Rightarrow> cell" where
  "blank = (\<lambda>c. NaN)"

definition region_header :: "string list" where
  "region_header = level_names @ [''region name'', ''count'']"

definition scenario_summary :: frame where
  "scenario_summary =
     \<lparr>columns = [''name''],
      rows = [blank(''name'' := StrV ''Thalamus''), blank(''name'' := StrV ''Cortex'')]\<rparr>"

definition scenario_row1 :: "string \<Rightarrow> cell" where
  "scenario_row1 = blank(''level_1'' := StrV ''Thalamus'', ''count'' := IntV 10)"

definition scenario_row2 :: "string \<Rightarrow> cell" where
  "scenario_row2 =
     blank(''level_2'' := StrV ''cortex'', ''level_5'' := StrV ''Thalamus'', ''count'' := IntV 4)"

definition scenario_regions :: frame where
  "scenario_regions = \<lparr>columns = region_header, rows = [scenario_row1, scenario_row2]\<rparr>"

definition scenario_os :: os where
  "scenario_os =
     \<lparr>read_csv = (\<lambda>p. if p = ''data/summary.csv'' then Inr scenario_summary
                      else if p = ''data/regions.csv'' then Inr scenario_regions
                      else Inl OSError),
      can_write = (\<lambda>p. True)\<rparr>"

text \<open>One choice of the two parameters; no sample run reaches them.\<close>

definition scenario_py :: pylib where
  "scenario_py = \<lparr>int_of_str = (\<lambda>s. None), float_repr = (\<lambda>x. [])\<rparr>"

definition scenario_argv :: "string list" where
  "scenario_argv = [''count_labels.py'', ''data/summary.csv'', ''data/regions.csv'']"

text \<open>A row whose only hierarchy text is \<^verbatim>\<open>cerebral cortex\<close>, with a full set of columns.\<close>

definition cerebral_row :: series where
  "cerebral_row =
     (\<lambda>k. if k \<in> set region_header
          then Some ((blank(''level_3'' := StrV ''Cerebral cortex'', ''count'' := IntV 7)) k)
          else None)"

text \<open>A row whose \<^verbatim>\<open>level_3\<close> is the one letter U+00DF, the sharp s.\<close>

definition sharp_s :: string where
  "sharp_s = [CHR 0xDF]"

definition sharp_s_row :: series where
  "sharp_s_row =
     (\<lambda>k. if k \<in> set region_header
          then Some ((blank(''level_3'' := StrV sharp_s, ''count'' := IntV 1)) k)
          else None)"

text \<open>The first row of the sample region table, as the loops see it.\<close>

definition thalamus_row :: series where
  "thalamus_row =
     (\<lambda>k. if k \<in> set region_header
          then Some ((blank(''level_1'' := StrV ''Thalamus'', ''count'' := IntV 10)) k)
          else None)"

text \<open>A second summary table, and a disk that holds both.\<close>

definition other_summary :: frame where
  "other_summary = \<lparr>columns = [''name''], rows = [blank(''name'' := StrV ''Pons'')]\<rparr>"

definition two_summaries_os :: os where
  "two_summaries_os =
     \<lparr>read_csv = (\<lambda>p. if p = ''data/summary.csv'' then Inr scenario_summary
                      else if p = ''data/other.csv'' then Inr other_summary
                      else Inl OSError),
      can_write = (\<lambda>p. True)\<rparr>"



text \<open>A summary table that names the thalamus twice, and sample totals.\<close>

definition dup_summary :: frame where
  "dup_summary =
     \<lparr>columns = [''name''],
      rows = [blank(''name'' := StrV ''Thalamus''), blank(''name'' := StrV ''Cortex''),
              blank(''name'' := StrV ''THALAMUS'')]\<rparr>"

definition dup_os :: os where
  "dup_os =
     \<lparr>read_csv = (\<lambda>p. if p = ''data/summary.csv'' then Inr dup_summary else Inl OSError),
      can_write = (\<lambda>p. True)\<rparr>"

definition sample_counts :: "string \<rightharpoonup> int" where
  "sample_counts = [''thalamus'' \<mapsto> 14]"

text \<open>A row that names the thalamus in two of its hierarchy columns.\<close>

definition twice_row :: series where
  "twice_row =
     (\<lambda>k. if k \<in> set region_header
          then Some ((blank(''level_1'' := StrV ''Thalamus'', ''level_5'' := StrV ''thalamus'',
                           ''count'' := IntV 4)) k)
          else None)"

text \<open>
  A region table with a numbered \<^verbatim>\<open>level_0\<close> and texts everywhere else, and one whose
  \<^verbatim>\<open>level_10\<close> column is blank throughout.
\<close>

definition numbered_regions :: frame where
  "numbered_regions =
     \<lparr>columns = region_header,
      rows = [(\<lambda>c. StrV ''root'')(''level_0'' := IntV 5, ''count'' := IntV 3)]\<rparr>"

definition blank_column_regions :: frame where
  "blank_column_regions =
     \<lparr>columns = region_header,
      rows = [(\<lambda>c. StrV ''root'')(''level_10'' := NaN, ''count'' := IntV 3)]\<rparr>"

text \<open>A region table with a blank count: the column is a float column.\<close>

definition gaps_row2 :: "string \<Rightarrow> cell" where
  "gaps_row2 = blank(''level_1'' := StrV ''Thalamus'')"

definition gaps_regions :: frame where
  "gaps_regions =
     \<lparr>columns = region_header,
      rows = [blank(''level_1'' := StrV ''Thalamus'', ''count'' := FloatV (Some 3) ''3.0''),
              gaps_row2,
              blank(''level_2'' := StrV ''thalamus'', ''count'' := FloatV (Some 5) ''5.0'')]\<rparr>"

text \<open>A summary table with the names \<^verbatim>\<open>5\<close>, \<^verbatim>\<open>0\<close> and \<^verbatim>\<open>Root\<close>, next to the numbered table.\<close>

definition numbered_summary :: frame where
  "numbered_summary =
     \<lparr>columns = [''name''],
      rows = [blank(''name'' := StrV ''5''), blank(''name'' := StrV ''0''),
              blank(''name'' := StrV ''Root'')]\<rparr>"

definition numbered_os :: os where
  "numbered_os =
     \<lparr>read_csv = (\<lambda>p. if p = ''data/summary.csv'' then Inr numbered_summary
                      else if p = ''data/regions.csv'' then Inr numbered_regions
                      else Inl OSError),
      can_write = (\<lambda>p. True)\<rparr>"

text \<open>
  A region table without a text: every hierarchy cell and the region name are blank,
  and the count is 2 to the 53 plus 1. Next to it, a summary table that names \<^verbatim>\<open>0.0\<close>.
\<close>

definition big_row :: "string \<Rightarrow> cell" where
  "big_row = blank(''count'' := IntV 9007199254740993)"

definition big_regions :: frame where
  "big_regions = \<lparr>columns = region_header, rows = [big_row]\<rparr>"

definition big_summary :: frame where
  "big_summary =
     \<lparr>columns = [''name''],
      rows = [blank(''name'' := StrV ''0.0''), blank(''name'' := StrV ''Thalamus'')]\<rparr>"

definition big_os :: os where
  "big_os =
     \<lparr>read_csv = (\<lambda>p. if p = ''data/summary.csv'' then Inr big_summary
                      else if p = ''data/regions.csv'' then Inr big_regions
                      else Inl OSError),
      can_write = (\<lambda>p. True)\<rparr>"

section \<open>Lowercase and uppercase\<close>

lemma of_char_lt: "(of_char c :: nat) < 256"
  by (cases c) (simp add: of_char_def)

lemma lower_char_idem: "lower_char (lower_char c) = lower_char c"
proof -
  have "(of_char c :: nat) < 256" by (rule of_char_lt)
  then show ?thesis
    by (auto simp: lower_char_def Let_def)
qed

lemma lower_idem: "lower (lower s) = lower s"
  by (simp add: lower_def lower_char_idem)

lemma upper_char_lower:
  assumes "upper_char c = Some u" and "c \<noteq> CHR 0xDF"
  shows "lower u = [lower_char c]"
proof -
  have lt: "(of_char c :: nat) < 256" by (rule of_char_lt)
  have ne: "(of_char c :: nat) \<noteq> 223"
  proof
    assume "(of_char c :: nat) = 223"
    then have "(of_char c :: nat) = of_char (CHR 0xDF)" by simp
    then have "c = CHR 0xDF" by (simp only: of_char_eq_iff)
    then show False using assms(2) by simp
  qed
  show ?thesis
    using assms(1) lt ne
    by (auto simp: upper_char_def lower_def lower_char_def Let_def split: if_splits)
qed

lemma upper_lower:
  "upper L = Some U \<Longrightarrow> CHR 0xDF \<notin> set L \<Longrightarrow> lower U = lower L"
proof (induction L arbitrary: U)
  case Nil
  then show ?case by (simp add: lower_def)
next
  case (Cons c cs)
  from Cons.prems(1) obtain u us where u: "upper_char c = Some u" and us: "upper cs = Some us"
    and U: "U = u @ us"
    by (auto split: option.splits)
  from Cons.prems(2) have "c \<noteq> CHR 0xDF" and "CHR 0xDF \<notin> set cs" by auto
  with u us Cons.IH have "lower u = [lower_char c]" and "lower us = lower cs"
    by (auto dest: upper_char_lower)
  then show ?case using U by (simp add: lower_def)
qed

section \<open>Facts about the matcher\<close>

lemma mapM_getitem_Inr:
  "mapM (getitem row) ks = Inr vs \<longleftrightarrow> map row ks = map Some vs"
proof (induction ks arbitrary: vs)
  case Nil
  show ?case by auto
next
  case (Cons k ks)
  show ?case
    by (cases vs) (auto simp: Cons.IH [symmetric] getitem_def split: sum.splits option.splits)
qed

lemma mapM_getitem_Inl:
  "mapM (getitem row) ks = Inl e \<Longrightarrow> e = KeyError \<and> (\<exists>k\<in>set ks. row k = None)"
  by (induction ks) (auto simp: getitem_def split: sum.splits option.splits)

lemma check_columns_Inr:
  assumes "map row level_names = map Some vs"
  shows "check_columns label row = Inr (lower label \<in> set (map row_label vs))"
  using assms
  by (simp add: check_columns_def Let_def mapM_getitem_Inr [THEN iffD2] row_label_def)

lemma check_columns_KeyError:
  assumes "k \<in> set level_names" and "row k = None"
  shows "check_columns label row = Inl KeyError"
proof (cases "mapM (getitem row) level_names")
  case (Inl e)
  then show ?thesis by (auto simp: check_columns_def Let_def dest: mapM_getitem_Inl)
next
  case (Inr vs)
  then have "map row level_names = map Some vs" by (simp add: mapM_getitem_Inr)
  then have "row ` set level_names = Some ` set vs" by (metis set_map)
  with assms have False by force
  then show ?thesis ..
qed

lemma all_fields:
  assumes "\<forall>k\<in>set ks. row k \<noteq> None"
  shows "map row ks = map Some (map (\<lambda>k. the (row k)) ks)"
  using assms by (induction ks) auto


section \<open>Facts about the loops\<close>

lemma lookup_add_count_same:
  "lookup_count (add_count sc label n) label = lookup_count sc label + n"
  by (simp add: lookup_count_def add_count_def split: option.splits)

lemma add_count_other: "l \<noteq> label \<Longrightarrow> add_count sc label n l = sc l"
  by (simp add: add_count_def)

lemma count_of_eq:
  "getitem row ''count'' = Inr v \<Longrightarrow> py_int py v = Inr n \<Longrightarrow> count_of py row = n"
  by (simp add: count_of_def)

lemma count_rows_other:
  "count_rows py label region_rows sc = Inr sc' \<Longrightarrow> l \<noteq> label \<Longrightarrow> sc' l = sc l"
proof (induction region_rows arbitrary: sc)
  case Nil
  then show ?case by simp
next
  case (Cons row rest)
  then show ?case
    by (auto simp: add_count_other split: sum.splits if_splits)
qed

lemma count_rows_total:
  "count_rows py label region_rows sc = Inr sc' \<Longrightarrow>
   lookup_count sc' label =
     lookup_count sc label +
     sum_list (map (count_of py) (filter (\<lambda>s. check_columns label s = Inr True) region_rows))"
proof (induction region_rows arbitrary: sc)
  case Nil
  then show ?case by simp
next
  case (Cons row rest)
  show ?case
  proof (cases "check_columns label row = Inr True")
    case True
    with Cons.prems obtain v n where v: "getitem row ''count'' = Inr v"
      and n: "py_int py v = Inr n"
      and rest: "count_rows py label rest (add_count sc label n) = Inr sc'"
      by (auto split: sum.splits)
    from Cons.IH [OF rest] v n True show ?thesis
      by (simp add: lookup_add_count_same count_of_eq)
  next
    case False
    with Cons.prems have "count_rows py label rest sc = Inr sc'"
      by (auto split: sum.splits if_splits)
    from Cons.IH [OF this] False show ?thesis by simp
  qed
qed

lemma count_rows_checked:
  "count_rows py label region_rows sc = Inr sc' \<Longrightarrow> s \<in> set region_rows \<Longrightarrow>
   \<exists>b. check_columns label s = Inr b"
proof (induction region_rows arbitrary: sc)
  case Nil
  then show ?case by simp
next
  case (Cons row rest)
  then show ?case
    by (auto split: sum.splits if_splits)
qed

lemma count_labels_other:
  "count_labels py labels region_rows sc = Inr sc' \<Longrightarrow> l \<notin> set labels \<Longrightarrow> sc' l = sc l"
proof (induction labels arbitrary: sc)
  case Nil
  then show ?case by simp
next
  case (Cons label rest)
  then show ?case
    by (auto split: sum.splits dest: count_rows_other)
qed

lemma lookup_count_cong: "sc l = sc' l \<Longrightarrow> lookup_count sc l = lookup_count sc' l"
  by (simp add: lookup_count_def)

lemma count_labels_total:
  "count_labels py labels region_rows sc = Inr sc' \<Longrightarrow> distinct labels \<Longrightarrow>
   label \<in> set labels \<Longrightarrow>
   lookup_count sc' label =
     lookup_count sc label +
     sum_list (map (count_of py) (filter (\<lambda>s. check_columns label s = Inr True) region_rows))"
proof (induction labels arbitrary: sc)
  case Nil
  then show ?case by simp
next
  case (Cons l rest)
  from Cons.prems(1) obtain sc1 where one: "count_rows py l region_rows sc = Inr sc1"
    and more: "count_labels py rest region_rows sc1 = Inr sc'"
    by (auto split: sum.splits)
  show ?case
  proof (cases "label = l")
    case True
    with Cons.prems(2) have "label \<notin> set rest" by simp
    with more have "sc' label = sc1 label" by (rule count_labels_other)
    then have "lookup_count sc' label = lookup_count sc1 label" by (rule lookup_count_cong)
    with count_rows_total [OF one] True show ?thesis by simp
  next
    case False
    with Cons.prems have in_rest: "label \<in> set rest" and d: "distinct rest" by auto
    from one False have "sc1 label = sc label" by (auto dest: count_rows_other)
    then have "lookup_count sc1 label = lookup_count sc label" by (rule lookup_count_cong)
    with Cons.IH [OF more d in_rest] show ?thesis by simp
  qed
qed

lemma count_labels_order:
  assumes "count_labels py ls region_rows sc = Inr sc1"
    and "count_labels py ls' region_rows sc = Inr sc2"
    and "distinct ls" and "distinct ls'" and "set ls = set ls'"
  shows "lookup_count sc1 l = lookup_count sc2 l"
proof (cases "l \<in> set ls")
  case True
  with assms(5) have "l \<in> set ls'" by simp
  with count_labels_total [OF assms(1,3) True] count_labels_total [OF assms(2,4)]
  show ?thesis by simp
next
  case False
  with assms(5) have "l \<notin> set ls'" by simp
  with assms(2) have "sc2 l = sc l" by (rule count_labels_other)
  moreover from assms(1) False have "sc1 l = sc l" by (rule count_labels_other)
  ultimately show ?thesis by (simp add: lookup_count_def)
qed

lemma count_labels_checked:
  "count_labels py labels region_rows sc = Inr sc' \<Longrightarrow> label \<in> set labels \<Longrightarrow>
   s \<in> set region_rows \<Longrightarrow> \<exists>b. check_columns label s = Inr b"
proof (induction labels arbitrary: sc)
  case Nil
  then show ?case by simp
next
  case (Cons l rest)
  then show ?case
    by (auto split: sum.splits dest: count_rows_checked)
qed

section \<open>The matcher compares whole texts\<close>

text \<open>
  C2. For every label and every row that has the eleven hierarchy columns,
  \<^verbatim>\<open>check_columns\<close> returns true exactly when the lowercased label is equal, as a
  whole text, to the lowercased text of one of the cells \<^verbatim>\<open>level_0\<close> .. \<^verbatim>\<open>level_10\<close>.
  A label that is only a part of such a text (\<^verbatim>\<open>cortex\<close> in \<^verbatim>\<open>cerebral cortex\<close>)
  does not match.
\<close>

theorem check_columns_exact:
  assumes "set level_names \<subseteq> dom row"
  shows "check_columns label row =
           Inr (\<exists>k\<in>set level_names. \<exists>v. row k = Some v \<and> lower (py_str v) = lower label)"
proof -
  let ?vs = "map (\<lambda>k. the (row k)) level_names"
  from assms have all: "\<forall>k\<in>set level_names. row k \<noteq> None" by auto
  then have "map row level_names = map Some ?vs" by (rule all_fields)
  then have "check_columns label row = Inr (lower label \<in> set (map row_label ?vs))"
    by (rule check_columns_Inr)
  moreover have "lower label \<in> set (map row_label ?vs) \<longleftrightarrow>
      (\<exists>k\<in>set level_names. \<exists>v. row k = Some v \<and> lower (py_str v) = lower label)"
    using all by (force simp: row_label_def)
  ultimately show ?thesis by simp
qed

theorem check_columns_exact_witness:
  "set level_names \<subseteq> dom cerebral_row \<and>
   check_columns ''cortex'' cerebral_row = Inr False \<and>
   \<not> (\<exists>k\<in>set level_names. \<exists>v. cerebral_row k = Some v \<and>
         lower (py_str v) = lower ''cortex'')"
proof -
  have h: "set level_names \<subseteq> dom cerebral_row"
    by (simp add: level_names_def cerebral_row_def region_header_def dom_def)
  have a: "check_columns ''cortex'' cerebral_row = Inr False"
    by code_simp
  from check_columns_exact [OF h, of "''cortex''"] a h show ?thesis
    by simp
qed

section \<open>Upper and lower case in the matcher\<close>

lemma check_columns_keyword_cong:
  "lower a = lower b \<Longrightarrow> check_columns a row = check_columns b row"
  by (simp add: check_columns_def)

lemma getitem_None: "row k = None \<Longrightarrow> getitem row k = Inl KeyError"
  by (simp add: getitem_def)

lemma getitem_Some: "row k = Some v \<Longrightarrow> getitem row k = Inr v"
  by (simp add: getitem_def)

lemma mapM_getitem_cong:
  assumes "\<forall>k\<in>set ks. map_option row_label (row k) = map_option row_label (row' k)"
  shows "map_sum id (map row_label) (mapM (getitem row) ks) =
         map_sum id (map row_label) (mapM (getitem row') ks)"
  using assms
proof (induction ks)
  case Nil
  show ?case by simp
next
  case (Cons k ks)
  from Cons.prems have here: "map_option row_label (row k) = map_option row_label (row' k)"
    by simp
  from Cons.prems have "\<forall>k\<in>set ks. map_option row_label (row k) = map_option row_label (row' k)"
    by simp
  then have IH: "map_sum id (map row_label) (mapM (getitem row) ks) =
                 map_sum id (map row_label) (mapM (getitem row') ks)"
    by (rule Cons.IH)
  show ?case
    using here IH
    by (cases "row k"; cases "row' k"; cases "mapM (getitem row) ks";
        cases "mapM (getitem row') ks") (auto simp: getitem_None getitem_Some)
qed

lemma check_columns_alt:
  "check_columns keyword row =
     (case map_sum id (map row_label) (mapM (getitem row) level_names) of
        Inl e \<Rightarrow> Inl e
      | Inr ls \<Rightarrow> Inr (lower keyword \<in> set ls))"
  by (cases "mapM (getitem row) level_names")
     (auto simp: check_columns_def Let_def row_label_def)

lemma check_columns_row_cong:
  assumes "\<forall>k\<in>set level_names. map_option row_label (row k) = map_option row_label (row' k)"
  shows "check_columns keyword row = check_columns keyword row'"
  by (simp only: check_columns_alt mapM_getitem_cong [OF assms])

lemma upper_char_ascii:
  assumes "(of_char c :: nat) < 128"
  shows "\<exists>u. upper_char c = Some u" and "c \<noteq> CHR 0xDF"
proof -
  from assms show "\<exists>u. upper_char c = Some u"
    by (simp add: upper_char_def Let_def)
  show "c \<noteq> CHR 0xDF"
  proof
    assume "c = CHR 0xDF"
    then have "(of_char c :: nat) = 223" by simp
    with assms show False by simp
  qed
qed

lemma upper_ascii:
  "list_all (\<lambda>c. (of_char c :: nat) < 128) L \<Longrightarrow>
   \<exists>U. upper L = Some U \<and> lower U = lower L"
proof (induction L)
  case Nil
  show ?case by simp
next
  case (Cons c cs)
  then obtain us where us: "upper cs = Some us" and low: "lower us = lower cs" by auto
  from Cons.prems have c: "(of_char c :: nat) < 128" by simp
  then obtain u where u: "upper_char c = Some u" by (auto dest: upper_char_ascii(1))
  from c have "c \<noteq> CHR 0xDF" by (rule upper_char_ascii(2))
  with u have "lower u = [lower_char c]" by (rule upper_char_lower)
  with low u us show ?case by (simp add: lower_def)
qed

text \<open>
  C4, as it holds. For any label and any row, replacing the cell of a column by its
  lowercased text does not change the answer of \<^verbatim>\<open>check_columns\<close>. Two labels with
  the same lowercase form get the same answer, so a label \<open>L\<close> and its uppercase form
  \<open>U\<close> get the same answer whenever \<open>U\<close> lowercases to the lowercase of \<open>L\<close>: that is
  so for every label without the sharp s whose uppercase form the model holds, and
  for every ASCII label.
\<close>

theorem check_columns_case_insensitive:
  "(row k = Some v \<longrightarrow>
      check_columns L (row(k \<mapsto> StrV (lower (py_str v)))) = check_columns L row) \<and>
   (lower U = lower L \<longrightarrow> check_columns U row = check_columns L row) \<and>
   (upper L = Some U \<and> CHR 0xDF \<notin> set L \<longrightarrow> lower U = lower L) \<and>
   (list_all (\<lambda>c. (of_char c :: nat) < 128) L \<longrightarrow>
      (\<exists>U'. upper L = Some U' \<and> lower U' = lower L))"
proof (intro conjI impI)
  assume "row k = Some v"
  then have "\<forall>j\<in>set level_names.
          map_option row_label ((row(k \<mapsto> StrV (lower (py_str v)))) j) =
          map_option row_label (row j)"
    by (auto simp: row_label_def lower_idem)
  then show "check_columns L (row(k \<mapsto> StrV (lower (py_str v)))) = check_columns L row"
    by (rule check_columns_row_cong)
next
  assume "lower U = lower L"
  then show "check_columns U row = check_columns L row" by (rule check_columns_keyword_cong)
next
  assume "upper L = Some U \<and> CHR 0xDF \<notin> set L"
  then show "lower U = lower L" by (auto dest: upper_lower)
next
  assume "list_all (\<lambda>c. (of_char c :: nat) < 128) L"
  then show "\<exists>U'. upper L = Some U' \<and> lower U' = lower L" by (rule upper_ascii)
qed

theorem check_columns_case_insensitive_witness:
  "thalamus_row ''level_1'' = Some (StrV ''Thalamus'') \<and>
   upper ''Thalamus'' = Some ''THALAMUS'' \<and> CHR 0xDF \<notin> set ''Thalamus'' \<and>
   list_all (\<lambda>c. (of_char c :: nat) < 128) ''Thalamus'' \<and>
   lower ''THALAMUS'' = lower ''Thalamus'' \<and>
   check_columns ''Thalamus'' thalamus_row = Inr True \<and>
   check_columns ''THALAMUS'' thalamus_row = Inr True \<and>
   check_columns ''Thalamus'' (thalamus_row(''level_1'' \<mapsto> StrV ''thalamus'')) = Inr True"
proof -
  have r: "thalamus_row ''level_1'' = Some (StrV ''Thalamus'')"
    by (simp add: thalamus_row_def region_header_def level_names_def)
  have u: "upper ''Thalamus'' = Some ''THALAMUS''" by code_simp
  have n: "CHR 0xDF \<notin> set ''Thalamus''" by simp
  have a: "list_all (\<lambda>c. (of_char c :: nat) < 128) ''Thalamus''" by simp
  have m: "check_columns ''Thalamus'' thalamus_row = Inr True" by code_simp
  have l: "lower (py_str (StrV ''Thalamus'')) = ''thalamus''" by code_simp
  note inst = check_columns_case_insensitive
    [where L = "''Thalamus''" and U = "''THALAMUS''" and row = thalamus_row
       and k = "''level_1''" and v = "StrV ''Thalamus''"]
  from inst u n have low: "lower ''THALAMUS'' = lower ''Thalamus''" by blast
  with inst have up: "check_columns ''THALAMUS'' thalamus_row =
      check_columns ''Thalamus'' thalamus_row" by blast
  from inst r have "check_columns ''Thalamus''
      (thalamus_row(''level_1'' \<mapsto> StrV (lower (py_str (StrV ''Thalamus''))))) =
      check_columns ''Thalamus'' thalamus_row" by blast
  with r u n a low up m l show ?thesis by simp
qed

text \<open>
  The sharp s is lowercase and its uppercase form is \<^verbatim>\<open>SS\<close>, which lowercases to
  \<^verbatim>\<open>ss\<close>: the label matches a row that the uppercased label does not match.
\<close>

theorem check_columns_case_insensitive_counterexample:
  "upper sharp_s = Some ''SS'' \<and>
   check_columns sharp_s sharp_s_row = Inr True \<and>
   check_columns ''SS'' sharp_s_row = Inr False"
  by code_simp

section \<open>The sample run\<close>

text \<open>
  C1. With the summary table of the two names \<^verbatim>\<open>Thalamus\<close> and \<^verbatim>\<open>Cortex\<close> and the
  region table of the two rows (\<^verbatim>\<open>level_1\<close> Thalamus, count 10) and (\<^verbatim>\<open>level_2\<close>
  cortex, \<^verbatim>\<open>level_5\<close> Thalamus, count 4), every other cell missing, the script writes
  the count 14 for Thalamus and 4 for Cortex.
\<close>

theorem end_to_end_scenario:
  "main py scenario_os scenario_argv =
     \<lparr>printed =
        [''Summary structures filepath: data/summary.csv'',
         ''Region counts filepath: data/regions.csv'',
         ''Output csv filepath: data/summary_structures_counts.csv''],
      written =
        Some (''data/summary_structures_counts.csv'', [''name'', ''count''],
              [[StrV ''Thalamus'', IntV 14], [StrV ''Cortex'', IntV 4]]),
      exit_status = 0, fault = None\<rparr>"
  by code_simp

theorem end_to_end_scenario_witness:
  "written (main scenario_py scenario_os scenario_argv) =
     Some (''data/summary_structures_counts.csv'', [''name'', ''count''],
           [[StrV ''Thalamus'', IntV 14], [StrV ''Cortex'', IntV 4]])"
  using end_to_end_scenario [of scenario_py] by simp

section \<open>Too few arguments\<close>

text \<open>
  C8, as it holds. With fewer than two arguments after the script's name the script
  prints the two usage lines and stops through \<^verbatim>\<open>sys.exit()\<close>: no file is written, no
  exception escapes, and the exit status is 0.
\<close>

theorem usage_exit:
  assumes "length argv < 3"
  shows "main py w argv = \<lparr>printed = usage, written = None, exit_status = 0, fault = None\<rparr>"
  using assms by (simp add: main_def sys_exit_def)

theorem usage_exit_witness:
  "length [''count_labels.py'', ''data/summary.csv''] < 3 \<and>
   main scenario_py scenario_os [''count_labels.py'', ''data/summary.csv''] =
     \<lparr>printed = usage, written = None, exit_status = 0, fault = None\<rparr>"
proof -
  have h: "length [''count_labels.py'', ''data/summary.csv''] < 3" by simp
  from usage_exit [OF h, of scenario_py scenario_os] h show ?thesis by simp
qed

text \<open>The exit status of the usage path is zero, not a failure status.\<close>

theorem usage_exit_counterexample:
  "length [''count_labels.py''] < 3 \<and>
   exit_status (main scenario_py scenario_os [''count_labels.py'']) = 0"
  by (simp add: main_def sys_exit_def)

section \<open>Loading the summary table\<close>

text \<open>
  C7. \<^verbatim>\<open>load_summary_structures(p)\<close> should parse the table at \<open>p\<close>. As written it
  reads the module-level variable instead: with the variable unset it raises NameError
  whatever \<open>p\<close> is, and with the variable naming another file it returns that file's
  names. \<^verbatim>\<open>load_region_counts\<close> next to it does read its argument.
\<close>

theorem load_summary_structures_reads_global:
  "map_sum id snd (load_summary_structures two_summaries_os None ''data/summary.csv'') =
     Inl NameError \<and>
   map_sum id snd
     (load_summary_structures two_summaries_os (Some ''data/other.csv'') ''data/summary.csv'') =
     Inr [''pons''] \<and>
   map_sum id (\<lambda>x. set (snd x)) (load_region_counts scenario_os ''data/regions.csv'') =
     Inr {''thalamus'', ''cortex''}"
  by code_simp

lemma mapM_cell_lower:
  "mapM cell_lower vs =
     (if list_all is_str vs then Inr (map row_label vs) else Inl AttributeError)"
proof (induction vs)
  case Nil
  show ?case by simp
next
  case (Cons v vs)
  then show ?case by (cases v) (auto simp: row_label_def)
qed




section \<open>The writer keeps the rows\<close>

lemma set_cells_length: "length vs = length rs \<Longrightarrow> length (set_cells c rs vs) = length rs"
proof (induction rs arbitrary: vs)
  case Nil
  show ?case by simp
next
  case (Cons r rs)
  then show ?case by (cases vs) auto
qed

lemma set_cells_nth:
  "length vs = length rs \<Longrightarrow> i < length rs \<Longrightarrow> set_cells c rs vs ! i = (rs ! i)(c := vs ! i)"
proof (induction rs arbitrary: vs i)
  case Nil
  then show ?case by simp
next
  case (Cons r rs)
  then show ?case by (cases vs; cases i) auto
qed

text \<open>
  C5. For a summary table with a \<^verbatim>\<open>name\<close> column of texts (what the loader has
  already required), the writer succeeds and gives one record per input record, in
  the same order: record \<open>i\<close> is input record \<open>i\<close> with the field \<^verbatim>\<open>count\<close> set to
  the total found under its lowercased name, or 0 when the name is not a key. Equal
  names therefore get equal counts, and the number of rows is unchanged.
\<close>

theorem add_counts_rows:
  assumes "''name'' \<in> set (columns f)" and "list_all is_str (cells f ''name'')"
  shows "\<exists>f'. add_counts f sc = Inr f' \<and>
           length (rows f') = length (rows f) \<and>
           length (snd (to_csv f')) = length (rows f) \<and>
           ''count'' \<in> set (columns f') \<and>
           (\<forall>i<length (rows f).
              rows f' ! i =
                (rows f ! i)(''count'' := IntV (lookup_count sc (row_label ((rows f ! i) ''name'')))))"
proof -
  let ?vs = "map IntV (map (lookup_count sc) (map row_label (cells f ''name'')))"
  have run: "add_counts f sc = Inr (setitem f ''count'' ?vs)"
    using assms by (simp add: add_counts_def column_def mapM_cell_lower)
  have len: "length ?vs = length (rows f)" by (simp add: cells_def)
  have rows: "rows (setitem f ''count'' ?vs) = set_cells ''count'' (rows f) ?vs"
    by (simp add: setitem_def)
  have "length (rows (setitem f ''count'' ?vs)) = length (rows f)"
    using len by (simp only: rows set_cells_length)
  moreover have "\<forall>i<length (rows f).
      rows (setitem f ''count'' ?vs) ! i =
        (rows f ! i)(''count'' := IntV (lookup_count sc (row_label ((rows f ! i) ''name''))))"
  proof (intro allI impI)
    fix i
    assume i: "i < length (rows f)"
    have "set_cells ''count'' (rows f) ?vs ! i = (rows f ! i)(''count'' := ?vs ! i)"
      using len i by (rule set_cells_nth)
    moreover have "?vs ! i = IntV (lookup_count sc (row_label ((rows f ! i) ''name'')))"
      using i by (simp add: cells_def)
    ultimately show "rows (setitem f ''count'' ?vs) ! i =
        (rows f ! i)(''count'' := IntV (lookup_count sc (row_label ((rows f ! i) ''name''))))"
      by (simp only: rows)
  qed
  moreover have "''count'' \<in> set (columns (setitem f ''count'' ?vs))"
    by (simp add: setitem_def)
  ultimately show ?thesis using run by (simp add: to_csv_def)
qed

theorem add_counts_rows_witness:
  "''name'' \<in> set (columns dup_summary) \<and> list_all is_str (cells dup_summary ''name'') \<and>
   (\<exists>f'. add_counts dup_summary sample_counts = Inr f' \<and> length (rows f') = 3) \<and>
   map_sum id to_csv (add_counts dup_summary sample_counts) =
     Inr ([''name'', ''count''],
          [[StrV ''Thalamus'', IntV 14], [StrV ''Cortex'', IntV 0], [StrV ''THALAMUS'', IntV 14]])"
proof -
  have n: "''name'' \<in> set (columns dup_summary)" by (simp add: dup_summary_def)
  have s: "list_all is_str (cells dup_summary ''name'')" by code_simp
  have l: "length (rows dup_summary) = 3" by (simp add: dup_summary_def)
  have v: "map_sum id to_csv (add_counts dup_summary sample_counts) =
     Inr ([''name'', ''count''],
          [[StrV ''Thalamus'', IntV 14], [StrV ''Cortex'', IntV 0], [StrV ''THALAMUS'', IntV 14]])"
    by code_simp
  from add_counts_rows [OF n s, of sample_counts] l
  have "\<exists>f'. add_counts dup_summary sample_counts = Inr f' \<and> length (rows f') = 3"
    by auto
  with n s v show ?thesis by simp
qed

section \<open>Missing values\<close>

lemma columns_fillna0: "columns (fillna0 f) = columns f"
  by (simp add: fillna0_def)

lemma rows_fillna0: "rows (fillna0 f) = map (\<lambda>r c. fill_cell f c (r c)) (rows f)"
  by (simp add: fillna0_def)

lemma cells_fillna0: "cells (fillna0 f) c = map (fill_cell f c) (cells f c)"
  by (simp add: cells_def rows_fillna0)

lemma iterrows_fillna0: "iterrows py (fillna0 f) = map (seen_row py f) (rows f)"
  by (simp add: iterrows_def rows_fillna0 seen_row_def)

lemma fill_cell_obj: "is_obj v \<Longrightarrow> fill_cell f c v = v"
  by (cases v) (simp_all add: fill_cell_def)

lemma obj_not_numeric: "is_obj v \<Longrightarrow> \<not> is_int v \<and> \<not> is_float v"
  by (cases v) simp_all

lemma obj_no_upcast:
  assumes "c \<in> set (columns f)" and "list_ex is_obj (cells f c)"
  shows "\<not> upcasts (fillna0 f)"
proof -
  from assms(2) obtain v where v: "v \<in> set (cells f c)" and obj: "is_obj v"
    by (auto simp: list_ex_iff)
  from v obj have "v \<in> set (cells (fillna0 f) c)"
    by (force simp: cells_fillna0 fill_cell_obj)
  with obj have "\<not> int_column (fillna0 f) c" and "\<not> float_column (fillna0 f) c"
    by (auto simp: int_column_def float_column_def list_all_iff dest: obj_not_numeric)
  with assms(1) show ?thesis
    by (auto simp: upcasts_def list_all_iff columns_fillna0)
qed

lemma holds_text_no_upcast:
  assumes "holds_text f"
  shows "\<not> upcasts (fillna0 f)"
proof -
  from assms obtain c where "c \<in> set (columns f)" and "list_ex is_obj (cells f c)"
    unfolding holds_text_def list_ex_iff [of _ "columns f"] by blast
  then show ?thesis by (rule obj_no_upcast)
qed

lemma seen_row_at:
  "k \<in> set (columns f) \<Longrightarrow>
   seen_row py f r k =
     Some (if upcasts (fillna0 f) then to_float py (fill_cell f k (r k)) else fill_cell f k (r k))"
  by (simp add: seen_row_def row_series_def columns_fillna0)

lemma seen_row_absent: "k \<notin> set (columns f) \<Longrightarrow> seen_row py f r k = None"
  by (simp add: seen_row_def row_series_def columns_fillna0)

lemma seen_row_dom: "dom (seen_row py f r) = set (columns f)"
  by (auto simp: seen_row_def row_series_def columns_fillna0 dom_def)

lemma check_columns_hit:
  assumes "set level_names \<subseteq> dom s" and "k \<in> set level_names" and "s k = Some v"
    and "row_label v = lower label"
  shows "check_columns label s = Inr True"
proof -
  let ?vs = "map (\<lambda>k. the (s k)) level_names"
  from assms(1) have "\<forall>k\<in>set level_names. s k \<noteq> None" by auto
  then have "map s level_names = map Some ?vs" by (rule all_fields)
  then have "check_columns label s = Inr (lower label \<in> set (map row_label ?vs))"
    by (rule check_columns_Inr)
  moreover from assms(2,3,4) have "lower label \<in> set (map row_label ?vs)" by force
  ultimately show ?thesis by simp
qed

lemma row_label_zero: "row_label (IntV 0) = ''0''"
  by code_simp

lemma row_label_zero_float: "row_label zero_float = ''0.0''"
  by code_simp

text \<open>
  C3, as it holds. \<^verbatim>\<open>fillna(0)\<close> runs before the loops, and the row the loops see for a
  row \<open>r\<close> of the table is \<open>seen_row py f r\<close>. For a hierarchy column \<open>k\<close> of a table
  that has the eleven hierarchy columns:
  a missing cell in a column that holds a text becomes the integer 0, takes part in the
  matching as \<^verbatim>\<open>0\<close>, and the row matches the label \<^verbatim>\<open>0\<close>;
  a missing cell in a column of floats and blanks becomes \<^verbatim>\<open>0.0\<close>, takes part as \<^verbatim>\<open>0.0\<close>,
  and the row matches the label \<^verbatim>\<open>0.0\<close>;
  a cell that is not missing, in a table that holds a text somewhere, stays as it is
  and takes part as its own text (\<^verbatim>\<open>str\<close> of the value, lowercased).
\<close>

theorem missing_level_label:
  assumes "r \<in> set (rows f)" and "set level_names \<subseteq> set (columns f)"
    and "k \<in> set level_names"
  shows "seen_row py f r \<in> set (iterrows py (fillna0 f)) \<and>
         (r k = NaN \<and> list_ex is_obj (cells f k) \<longrightarrow>
            seen_row py f r k = Some (IntV 0) \<and> row_label (IntV 0) = ''0'' \<and>
            check_columns ''0'' (seen_row py f r) = Inr True) \<and>
         (r k = NaN \<and> float_column f k \<longrightarrow>
            seen_row py f r k = Some zero_float \<and> row_label zero_float = ''0.0'' \<and>
            check_columns ''0.0'' (seen_row py f r) = Inr True) \<and>
         (r k \<noteq> NaN \<and> holds_text f \<longrightarrow>
            seen_row py f r k = Some (r k) \<and>
            check_columns (py_str (r k)) (seen_row py f r) = Inr True)"
proof -
  from assms(2,3) have kc: "k \<in> set (columns f)" by auto
  from assms(2) have levels: "set level_names \<subseteq> dom (seen_row py f r)"
    by (simp add: seen_row_dom)
  have seen: "seen_row py f r \<in> set (iterrows py (fillna0 f))"
    using assms(1) by (simp add: iterrows_fillna0)
  have obj: "seen_row py f r k = Some (IntV 0) \<and> row_label (IntV 0) = ''0'' \<and>
      check_columns ''0'' (seen_row py f r) = Inr True"
    if "r k = NaN" and "list_ex is_obj (cells f k)"
  proof -
    from that(2) obtain v where "v \<in> set (cells f k)" and "is_obj v"
      by (auto simp: list_ex_iff)
    then have "\<not> float_column f k"
      by (auto simp: float_column_def list_all_iff dest: obj_not_numeric)
    moreover from kc that(2) have "\<not> upcasts (fillna0 f)" by (rule obj_no_upcast)
    ultimately have here: "seen_row py f r k = Some (IntV 0)"
      using kc that(1) by (simp add: seen_row_at fill_cell_def)
    have "row_label (IntV 0) = lower ''0''" by code_simp
    with levels assms(3) here have "check_columns ''0'' (seen_row py f r) = Inr True"
      by (rule check_columns_hit)
    with here show ?thesis by (simp add: row_label_zero)
  qed
  have flt: "seen_row py f r k = Some zero_float \<and> row_label zero_float = ''0.0'' \<and>
      check_columns ''0.0'' (seen_row py f r) = Inr True"
    if "r k = NaN" and "float_column f k"
  proof -
    have here: "seen_row py f r k = Some zero_float"
      using kc that by (simp add: seen_row_at fill_cell_def zero_float_def)
    have "row_label zero_float = lower ''0.0''" by code_simp
    with levels assms(3) here have "check_columns ''0.0'' (seen_row py f r) = Inr True"
      by (rule check_columns_hit)
    with here show ?thesis by (simp add: row_label_zero_float)
  qed
  have own: "seen_row py f r k = Some (r k) \<and>
      check_columns (py_str (r k)) (seen_row py f r) = Inr True"
    if "r k \<noteq> NaN" and "holds_text f"
  proof -
    from that(2) have "\<not> upcasts (fillna0 f)" by (rule holds_text_no_upcast)
    then have here: "seen_row py f r k = Some (r k)"
      using kc that(1) by (simp add: seen_row_at fill_cell_def)
    have "row_label (r k) = lower (py_str (r k))" by (simp add: row_label_def)
    with levels assms(3) here
    have "check_columns (py_str (r k)) (seen_row py f r) = Inr True"
      by (rule check_columns_hit)
    with here show ?thesis by simp
  qed
  from seen obj flt own show ?thesis by blast
qed

theorem missing_level_label_witness:
  "scenario_row2 \<in> set (rows scenario_regions) \<and>
   set level_names \<subseteq> set (columns scenario_regions) \<and>
   ''level_1'' \<in> set level_names \<and>
   scenario_row2 ''level_1'' = NaN \<and> list_ex is_obj (cells scenario_regions ''level_1'') \<and>
   seen_row scenario_py scenario_regions scenario_row2 ''level_1'' = Some (IntV 0) \<and>
   check_columns ''0'' (seen_row scenario_py scenario_regions scenario_row2) = Inr True"
proof -
  have r: "scenario_row2 \<in> set (rows scenario_regions)"
    by (simp add: scenario_regions_def)
  have c: "set level_names \<subseteq> set (columns scenario_regions)"
    by (auto simp: scenario_regions_def region_header_def)
  have k: "''level_1'' \<in> set level_names"
    by (simp add: level_names_def)
  have m: "scenario_row2 ''level_1'' = NaN"
    by (simp add: scenario_row2_def blank_def)
  have t: "list_ex is_obj (cells scenario_regions ''level_1'')"
    by code_simp
  from missing_level_label [OF r c k, of scenario_py] r c k m t show ?thesis
    by simp
qed


text \<open>
  A number in \<^verbatim>\<open>level_0\<close> takes part as its own digits, not as \<^verbatim>\<open>0\<close>: the label \<^verbatim>\<open>5\<close>
  matches the row and the label \<^verbatim>\<open>0\<close> does not, and the run writes 3 for \<^verbatim>\<open>5\<close> and 0
  for \<^verbatim>\<open>0\<close>. A blank in a column that is blank throughout takes part as \<^verbatim>\<open>0.0\<close>, and
  the label \<^verbatim>\<open>0\<close> does not match the row.
\<close>

theorem missing_level_label_counterexample:
  "cells numbered_regions ''level_0'' = [IntV 5] \<and>
   map (check_columns ''5'') (iterrows scenario_py (fillna0 numbered_regions)) = [Inr True] \<and>
   map (check_columns ''0'') (iterrows scenario_py (fillna0 numbered_regions)) = [Inr False] \<and>
   written (main scenario_py numbered_os scenario_argv) =
     Some (''data/summary_structures_counts.csv'', [''name'', ''count''],
           [[StrV ''5'', IntV 3], [StrV ''0'', IntV 0], [StrV ''Root'', IntV 3]]) \<and>
   cells blank_column_regions ''level_10'' = [NaN] \<and>
   map (check_columns ''0'') (iterrows scenario_py (fillna0 blank_column_regions)) =
     [Inr False] \<and>
   map (check_columns ''0.0'') (iterrows scenario_py (fillna0 blank_column_regions)) =
     [Inr True]"
  by code_simp

section \<open>The totals\<close>

lemma count_rows_converts:
  "count_rows py label region_rows sc = Inr sc' \<Longrightarrow> s \<in> set region_rows \<Longrightarrow>
   check_columns label s = Inr True \<Longrightarrow>
   \<exists>v n. getitem s ''count'' = Inr v \<and> py_int py v = Inr n"
proof (induction region_rows arbitrary: sc)
  case Nil
  then show ?case by simp
next
  case (Cons row rest)
  then show ?case
    by (auto split: sum.splits if_splits)
qed

lemma count_labels_converts:
  "count_labels py labels region_rows sc = Inr sc' \<Longrightarrow> label \<in> set labels \<Longrightarrow>
   s \<in> set region_rows \<Longrightarrow> check_columns label s = Inr True \<Longrightarrow>
   \<exists>v n. getitem s ''count'' = Inr v \<and> py_int py v = Inr n"
proof (induction labels arbitrary: sc)
  case Nil
  then show ?case by simp
next
  case (Cons l rest)
  then show ?case
    by (auto split: sum.splits dest: count_rows_converts)
qed

lemma getitem_seen_column: "getitem (seen_row py f r) c = Inr v \<Longrightarrow> c \<in> set (columns f)"
  by (cases "c \<in> set (columns f)") (simp_all add: getitem_def seen_row_absent)

lemma bit_length_bound: "n < 2 ^ k \<Longrightarrow> bit_length n \<le> k"
proof (induction k arbitrary: n)
  case 0
  then show ?case by (simp add: bit_length.simps)
next
  case (Suc k)
  show ?case
  proof (cases "n \<le> 0")
    case True
    then show ?thesis by (simp add: bit_length.simps)
  next
    case False
    from Suc.prems have "n div 2 < 2 ^ k" by simp
    then have "bit_length (n div 2) \<le> k" by (rule Suc.IH)
    with False show ?thesis by (subst bit_length.simps) simp
  qed
qed

lemma round_double_small: "\<bar>i\<bar> \<le> 2 ^ 53 \<Longrightarrow> round_double i = i"
proof (cases "\<bar>i\<bar> = 2 ^ 53")
  case True
  then have "i = 2 ^ 53 \<or> i = - (2 ^ 53)" by auto
  moreover have "round_double (2 ^ 53) = 2 ^ 53" by code_simp
  moreover have "round_double (- (2 ^ 53)) = - (2 ^ 53)" by code_simp
  ultimately show ?thesis by auto
next
  case False
  assume "\<bar>i\<bar> \<le> 2 ^ 53"
  with False have "\<bar>i\<bar> < 2 ^ 53" by simp
  then have "bit_length \<bar>i\<bar> \<le> 53" by (rule bit_length_bound)
  then show ?thesis by (simp add: round_double_def Let_def)
qed

lemma py_int_float_of_int: "py_int py (float_of_int py i) = Inr (round_double i)"
  by (simp add: float_of_int_def Let_def)

lemma py_int_seen_missing: "py_int py (seen_cell py f c NaN) = Inr 0"
proof -
  have "round_double 0 = 0" by (rule round_double_small) simp
  then show ?thesis
    by (simp add: seen_cell_def fill_cell_def zero_float_def py_int_float_of_int)
qed

lemma to_float_other: "\<not> is_int v \<Longrightarrow> to_float py v = v"
  by (cases v) simp_all

lemma seen_count_plain:
  assumes "\<not> upcasts (fillna0 f) \<or> \<not> is_int v"
  shows "seen_count py f v = coerced_count py v"
proof (cases "v = NaN")
  case True
  then show ?thesis by (simp add: seen_count_def coerced_count_def py_int_seen_missing)
next
  case False
  then have "seen_cell py f ''count'' v = v"
    using assms by (auto simp: seen_cell_def fill_cell_def to_float_other)
  with False show ?thesis by (simp add: seen_count_def coerced_count_def)
qed

lemma seen_count_int:
  "upcasts (fillna0 f) \<Longrightarrow> seen_count py f (IntV i) = round_double i"
  by (simp add: seen_count_def seen_cell_def fill_cell_def py_int_float_of_int)

lemma seen_row_cell:
  "c \<in> set (columns f) \<Longrightarrow> seen_row py f r c = Some (seen_cell py f c (r c))"
  by (simp add: seen_row_at seen_cell_def)

lemma count_of_seen_count:
  "''count'' \<in> set (columns f) \<Longrightarrow> count_of py (seen_row py f r) = seen_count py f (r ''count'')"
  by (simp add: count_of_def getitem_def seen_row_cell seen_count_def)

lemma count_rows_finishes:
  assumes "\<forall>s\<in>set region_rows. set level_names \<subseteq> dom s \<and>
             (\<exists>v n. getitem s ''count'' = Inr v \<and> py_int py v = Inr n)"
  shows "\<exists>sc'. count_rows py label region_rows sc = Inr sc'"
  using assms
proof (induction region_rows arbitrary: sc)
  case Nil
  show ?case by simp
next
  case (Cons row rest)
  from Cons.prems have levels: "set level_names \<subseteq> dom row"
    and rest: "\<forall>s\<in>set rest. set level_names \<subseteq> dom s \<and>
             (\<exists>v n. getitem s ''count'' = Inr v \<and> py_int py v = Inr n)"
    by simp_all
  from Cons.prems obtain v n where v: "getitem row ''count'' = Inr v"
    and n: "py_int py v = Inr n" by auto
  from levels have "\<forall>k\<in>set level_names. row k \<noteq> None" by auto
  then have "map row level_names = map Some (map (\<lambda>k. the (row k)) level_names)"
    by (rule all_fields)
  then have "check_columns label row =
      Inr (lower label \<in> set (map row_label (map (\<lambda>k. the (row k)) level_names)))"
    by (rule check_columns_Inr)
  then obtain b where b: "check_columns label row = Inr b" by blast
  from Cons.IH [OF rest] obtain sc1 where
    "count_rows py label rest (add_count sc label n) = Inr sc1" by blast
  moreover from Cons.IH [OF rest] obtain sc2 where
    "count_rows py label rest sc = Inr sc2" by blast
  ultimately show ?case using b v n by (cases b) auto
qed

lemma count_labels_finishes:
  assumes "\<forall>s\<in>set region_rows. set level_names \<subseteq> dom s \<and>
             (\<exists>v n. getitem s ''count'' = Inr v \<and> py_int py v = Inr n)"
  shows "\<exists>sc'. count_labels py labels region_rows sc = Inr sc'"
proof (induction labels arbitrary: sc)
  case Nil
  show ?case by simp
next
  case (Cons l rest)
  from count_rows_finishes [OF assms] obtain sc1 where
    "count_rows py l region_rows sc = Inr sc1" by blast
  moreover from Cons.IH obtain sc2 where
    "count_labels py rest region_rows sc1 = Inr sc2" by blast
  ultimately show ?case by auto
qed

text \<open>
  C6, as it holds. A blank count is read as 0 by the loops, so a row with a missing
  count adds exactly 0. When the loops finish, the total of a label is the sum, over
  the rows of the region table that match it, of the count the loops read with
  \<^verbatim>\<open>int\<close>. That count is the integer of the cell itself (a blank taken as 0) unless
  the cell is an integer of an all-numeric table with a float column: there pandas
  hands the integer out as the nearest double, which is the integer itself up to 2 to
  the 53 in size and a rounded value beyond. The loops finish when the table has the
  eleven hierarchy columns and the count column and every count converts.
\<close>

theorem aggregated_count:
  "(count_labels py labels (iterrows py (fillna0 f)) Map.empty = Inr sc \<and> distinct labels \<and>
    label \<in> set labels \<longrightarrow>
      lookup_count sc label =
        sum_list (map (\<lambda>r. seen_count py f (r ''count''))
          (filter (\<lambda>r. check_columns label (seen_row py f r) = Inr True) (rows f)))) \<and>
   py_int py (seen_cell py f ''count'' NaN) = Inr 0 \<and>
   (\<not> upcasts (fillna0 f) \<or> \<not> is_int v \<longrightarrow> seen_count py f v = coerced_count py v) \<and>
   (upcasts (fillna0 f) \<longrightarrow> seen_count py f (IntV i) = round_double i) \<and>
   (\<bar>i\<bar> \<le> 2 ^ 53 \<longrightarrow> round_double i = i) \<and>
   (set level_names \<subseteq> set (columns f) \<and> ''count'' \<in> set (columns f) \<and>
    (\<forall>r\<in>set (rows f). \<exists>n. py_int py (seen_cell py f ''count'' (r ''count'')) = Inr n) \<longrightarrow>
      (\<exists>sc'. count_labels py labels (iterrows py (fillna0 f)) Map.empty = Inr sc'))"
proof -
  let ?match = "\<lambda>s. check_columns label s = Inr True"
  have total: "lookup_count sc label =
      sum_list (map (\<lambda>r. seen_count py f (r ''count''))
        (filter (\<lambda>r. ?match (seen_row py f r)) (rows f)))"
    if fin: "count_labels py labels (iterrows py (fillna0 f)) Map.empty = Inr sc"
      and d: "distinct labels" and m: "label \<in> set labels"
  proof -
    from fin have run: "count_labels py labels (map (seen_row py f) (rows f)) Map.empty = Inr sc"
      by (simp only: iterrows_fillna0)
    from count_labels_total [OF run d m]
    have "lookup_count sc label =
        sum_list (map (count_of py) (filter ?match (map (seen_row py f) (rows f))))"
      by (simp add: lookup_count_def)
    also have "\<dots> = sum_list (map (\<lambda>r. count_of py (seen_row py f r))
        (filter (\<lambda>r. ?match (seen_row py f r)) (rows f)))"
      by (simp add: filter_map comp_def)
    also have "\<dots> = sum_list (map (\<lambda>r. seen_count py f (r ''count''))
        (filter (\<lambda>r. ?match (seen_row py f r)) (rows f)))"
    proof -
      have eq: "count_of py (seen_row py f r) = seen_count py f (r ''count'')"
        if "r \<in> set (filter (\<lambda>r. ?match (seen_row py f r)) (rows f))" for r
      proof -
        from that have "seen_row py f r \<in> set (map (seen_row py f) (rows f))"
          and "?match (seen_row py f r)" by auto
        with run m obtain v where "getitem (seen_row py f r) ''count'' = Inr v"
          by (blast dest: count_labels_converts)
        then have "''count'' \<in> set (columns f)" by (rule getitem_seen_column)
        then show ?thesis by (rule count_of_seen_count)
      qed
      have "map (\<lambda>r. count_of py (seen_row py f r))
              (filter (\<lambda>r. ?match (seen_row py f r)) (rows f)) =
            map (\<lambda>r. seen_count py f (r ''count''))
              (filter (\<lambda>r. ?match (seen_row py f r)) (rows f))"
        by (rule map_cong [OF refl eq])
      then show ?thesis by (simp only:)
    qed
    finally show ?thesis .
  qed
  have finishes: "\<exists>sc'. count_labels py labels (iterrows py (fillna0 f)) Map.empty = Inr sc'"
    if lv: "set level_names \<subseteq> set (columns f)" and c: "''count'' \<in> set (columns f)"
      and conv: "\<forall>r\<in>set (rows f). \<exists>n. py_int py (seen_cell py f ''count'' (r ''count'')) = Inr n"
  proof -
    have "\<forall>s\<in>set (map (seen_row py f) (rows f)). set level_names \<subseteq> dom s \<and>
        (\<exists>v n. getitem s ''count'' = Inr v \<and> py_int py v = Inr n)"
      using lv c conv by (auto simp: seen_row_dom getitem_def seen_row_cell)
    then have "\<exists>sc'. count_labels py labels (map (seen_row py f) (rows f)) Map.empty = Inr sc'"
      by (rule count_labels_finishes)
    then show ?thesis by (simp only: iterrows_fillna0)
  qed
  from total finishes show ?thesis
    by (simp add: py_int_seen_missing seen_count_plain seen_count_int round_double_small)
qed

theorem aggregated_count_witness:
  "distinct [''thalamus''] \<and> ''thalamus'' \<in> set [''thalamus''] \<and>
   set level_names \<subseteq> set (columns gaps_regions) \<and> ''count'' \<in> set (columns gaps_regions) \<and>
   map (\<lambda>r. py_int scenario_py (seen_cell scenario_py gaps_regions ''count'' (r ''count'')))
     (rows gaps_regions) = [Inr 3, Inr 0, Inr 5] \<and>
   map_sum id (\<lambda>sc. lookup_count sc ''thalamus'')
     (count_labels scenario_py [''thalamus''] (iterrows scenario_py (fillna0 gaps_regions))
        Map.empty) = Inr 8 \<and>
   sum_list (map (\<lambda>r. seen_count scenario_py gaps_regions (r ''count''))
     (filter (\<lambda>r. check_columns ''thalamus'' (seen_row scenario_py gaps_regions r) = Inr True)
        (rows gaps_regions))) = 8 \<and>
   upcasts (fillna0 big_regions) \<and> \<bar>7 :: int\<bar> \<le> 2 ^ 53 \<and>
   seen_count scenario_py big_regions (IntV 7) = 7"
proof -
  note inst = aggregated_count [where py = scenario_py and labels = "[''thalamus'']"
      and label = "''thalamus''" and f = gaps_regions]
  have d: "distinct [''thalamus'']" by simp
  have m: "''thalamus'' \<in> set [''thalamus'']" by simp
  have lv: "set level_names \<subseteq> set (columns gaps_regions)"
    by (auto simp: gaps_regions_def region_header_def)
  have c: "''count'' \<in> set (columns gaps_regions)"
    by (simp add: gaps_regions_def region_header_def)
  have e: "map (\<lambda>r. py_int scenario_py (seen_cell scenario_py gaps_regions ''count'' (r ''count'')))
     (rows gaps_regions) = [Inr 3, Inr 0, Inr 5]"
    by code_simp
  have conv: "\<forall>r\<in>set (rows gaps_regions).
      \<exists>n. py_int scenario_py (seen_cell scenario_py gaps_regions ''count'' (r ''count'')) = Inr n"
  proof
    fix r
    assume "r \<in> set (rows gaps_regions)"
    then have "py_int scenario_py (seen_cell scenario_py gaps_regions ''count'' (r ''count''))
        \<in> set (map (\<lambda>r. py_int scenario_py
              (seen_cell scenario_py gaps_regions ''count'' (r ''count''))) (rows gaps_regions))"
      by simp
    then show "\<exists>n. py_int scenario_py (seen_cell scenario_py gaps_regions ''count'' (r ''count''))
        = Inr n"
      by (simp only: e) auto
  qed
  from inst lv c conv obtain sc where run: "count_labels scenario_py [''thalamus'']
      (iterrows scenario_py (fillna0 gaps_regions)) Map.empty = Inr sc"
    by blast
  have v: "map_sum id (\<lambda>sc. lookup_count sc ''thalamus'')
     (count_labels scenario_py [''thalamus''] (iterrows scenario_py (fillna0 gaps_regions))
        Map.empty) = Inr 8"
    by code_simp
  with run have total: "lookup_count sc ''thalamus'' = 8" by simp
  from inst [of sc] run d m total
  have s: "sum_list (map (\<lambda>r. seen_count scenario_py gaps_regions (r ''count''))
     (filter (\<lambda>r. check_columns ''thalamus'' (seen_row scenario_py gaps_regions r) = Inr True)
        (rows gaps_regions))) = 8"
    by simp
  have u: "upcasts (fillna0 big_regions)" by code_simp
  have b: "\<bar>7 :: int\<bar> \<le> 2 ^ 53" by simp
  from aggregated_count [where py = scenario_py and f = big_regions and i = 7] u b
  have seven: "seen_count scenario_py big_regions (IntV 7) = 7" by simp
  from d m lv c e v s u b seven show ?thesis by simp
qed

text \<open>
  In a region table without a text, a count of 2 to the 53 plus 1 reaches the loops as
  the double 2 to the 53: the label \<^verbatim>\<open>0.0\<close> matches the row, its total is
  9007199254740992, and the sum of the counts is 9007199254740993.
\<close>

theorem aggregated_count_counterexample:
  "upcasts (fillna0 big_regions) \<and>
   cells big_regions ''count'' = [IntV 9007199254740993] \<and>
   map (check_columns ''0.0'') (iterrows scenario_py (fillna0 big_regions)) = [Inr True] \<and>
   map_sum id (\<lambda>sc. lookup_count sc ''0.0'')
     (count_labels scenario_py [''0.0''] (iterrows scenario_py (fillna0 big_regions)) Map.empty) =
     Inr 9007199254740992 \<and>
   sum_list (map (\<lambda>r. coerced_count scenario_py (r ''count''))
     (filter (\<lambda>r. check_columns ''0.0'' (seen_row scenario_py big_regions r) = Inr True)
        (rows big_regions))) = 9007199254740993 \<and>
   written (main scenario_py big_os scenario_argv) =
     Some (''data/summary_structures_counts.csv'', [''name'', ''count''],
           [[StrV ''0.0'', IntV 9007199254740992], [StrV ''Thalamus'', IntV 0]])"
  by code_simp

lemma hit_exists:
  "map s ks = map Some vs \<Longrightarrow>
   (\<exists>k\<in>set ks. case s k of None \<Rightarrow> False | Some v \<Rightarrow> P v) \<longleftrightarrow> (\<exists>v\<in>set vs. P v)"
proof (induction ks arbitrary: vs)
  case Nil
  then show ?case by simp
next
  case (Cons k ks)
  then show ?case by (cases vs) auto
qed

lemma check_columns_hits:
  assumes "check_columns label s = Inr b"
  shows "b = (hits label s \<noteq> 0)"
proof (cases "mapM (getitem s) level_names")
  case (Inl e)
  with assms show ?thesis by (simp add: check_columns_def)
next
  case (Inr vs)
  then have all: "map s level_names = map Some vs" by (simp add: mapM_getitem_Inr)
  then have "check_columns label s = Inr (lower label \<in> set (map row_label vs))"
    by (rule check_columns_Inr)
  with assms have "b = (lower label \<in> set (map row_label vs))" by simp
  also have "\<dots> = (\<exists>v\<in>set vs. row_label v = lower label)" by force
  also have "\<dots> = (\<exists>k\<in>set level_names.
      case s k of None \<Rightarrow> False | Some v \<Rightarrow> row_label v = lower label)"
    using all by (simp add: hit_exists)
  also have "\<dots> = (hits label s \<noteq> 0)"
    by (simp add: hits_def filter_empty_conv)
  finally show ?thesis .
qed

lemma structures_distinct:
  "load_summary_structures w g p = Inr (t, structures) \<Longrightarrow> distinct structures"
  by (auto simp: load_summary_structures_def split: option.splits sum.splits)

text \<open>
  C10. In a run, the labels are the distinct lowercased names of the summary table, and
  the total of a label is the sum over the region rows of the row's count when at least
  one hierarchy column matches and of 0 otherwise: a row adds its count once, however
  many of its columns equal the label and however often the name is listed.
\<close>

theorem row_counted_once:
  assumes "load_summary_structures w g p = Inr (summary, structures)"
    and "count_labels py structures region_rows Map.empty = Inr sc"
    and "label \<in> set structures"
  shows "lookup_count sc label =
           sum_list (map (\<lambda>s. if hits label s = 0 then 0 else count_of py s) region_rows)"
proof -
  let ?match = "\<lambda>s. check_columns label s = Inr True"
  from assms(1) have d: "distinct structures" by (rule structures_distinct)
  from count_labels_total [OF assms(2) d assms(3)]
  have "lookup_count sc label = sum_list (map (count_of py) (filter ?match region_rows))"
    by (simp add: lookup_count_def)
  also have "\<dots> = sum_list (map (\<lambda>s. if ?match s then count_of py s else 0) region_rows)"
    by (rule sum_list_map_filter')
  also have "\<dots> = sum_list (map (\<lambda>s. if hits label s = 0 then 0 else count_of py s) region_rows)"
  proof -
    have eq: "(if ?match s then count_of py s else 0) =
        (if hits label s = 0 then 0 else count_of py s)" if "s \<in> set region_rows" for s
    proof -
      from assms(2,3) that obtain b where b: "check_columns label s = Inr b"
        by (blast dest: count_labels_checked)
      then have "b = (hits label s \<noteq> 0)" by (rule check_columns_hits)
      with b show ?thesis by simp
    qed
    have "map (\<lambda>s. if ?match s then count_of py s else 0) region_rows =
          map (\<lambda>s. if hits label s = 0 then 0 else count_of py s) region_rows"
      by (rule map_cong [OF refl eq])
    then show ?thesis by (simp only:)
  qed
  finally show ?thesis .
qed

theorem row_counted_once_witness:
  "map_sum id snd
     (load_summary_structures dup_os (Some ''data/summary.csv'') ''data/summary.csv'') =
     Inr [''cortex'', ''thalamus''] \<and>
   ''thalamus'' \<in> set [''cortex'', ''thalamus''] \<and>
   hits ''thalamus'' twice_row = 2 \<and> count_of scenario_py twice_row = 4 \<and>
   map_sum id (\<lambda>sc. lookup_count sc ''thalamus'')
     (count_labels scenario_py [''cortex'', ''thalamus''] [twice_row] Map.empty) = Inr 4 \<and>
   sum_list (map (\<lambda>s. if hits ''thalamus'' s = 0 then 0 else count_of scenario_py s)
     [twice_row]) = 4"
proof -
  have l: "map_sum id snd
     (load_summary_structures dup_os (Some ''data/summary.csv'') ''data/summary.csv'') =
     Inr [''cortex'', ''thalamus'']"
    by code_simp
  then obtain t where load:
    "load_summary_structures dup_os (Some ''data/summary.csv'') ''data/summary.csv'' =
       Inr (t, [''cortex'', ''thalamus''])"
    by (cases "load_summary_structures dup_os (Some ''data/summary.csv'') ''data/summary.csv''")
      auto
  have m: "''thalamus'' \<in> set [''cortex'', ''thalamus'']" by simp
  have h: "hits ''thalamus'' twice_row = 2" by code_simp
  have c: "count_of scenario_py twice_row = 4" by code_simp
  have v: "map_sum id (\<lambda>sc. lookup_count sc ''thalamus'')
     (count_labels scenario_py [''cortex'', ''thalamus''] [twice_row] Map.empty) = Inr 4"
    by code_simp
  then obtain sc where run:
    "count_labels scenario_py [''cortex'', ''thalamus''] [twice_row] Map.empty = Inr sc"
    and total: "lookup_count sc ''thalamus'' = 4"
    by (cases "count_labels scenario_py [''cortex'', ''thalamus''] [twice_row] Map.empty") auto
  from row_counted_once [OF load run m] total
  have "sum_list (map (\<lambda>s. if hits ''thalamus'' s = 0 then 0 else count_of scenario_py s)
     [twice_row]) = 4"
    by simp
  with l m h c v show ?thesis by simp
qed

end
